theory Spec2Isabelle
  imports Main
begin

section \<open>Values that cross the transport\<close>

text \<open>
  The payloads of \<^verbatim>\<open>ws.send_json\<close> are Python dict literals whose values are strings
  and, for \<^verbatim>\<open>walk_to\<close>, a tuple of three floats. Floats are only passed through, so
  their type is a parameter \<open>'flt\<close>. A dict is an association list in insertion order.
\<close>

datatype 'flt pyval = Str string | Float 'flt | Tuple "'flt pyval list"

type_synonym 'flt payload = "(string \<times> 'flt pyval) list"

text \<open>
  \<^verbatim>\<open>payload[key] = value\<close>: an existing key keeps its place and gets the new value,
  a new key is appended.
\<close>

fun dict_set :: "string \<Rightarrow> 'v \<Rightarrow> (string \<times> 'v) list \<Rightarrow> (string \<times> 'v) list" where
  "dict_set k v [] = [(k, v)]"
| "dict_set k v ((k', v') # kvs) =
     (if k' = k then (k, v) # kvs else (k', v') # dict_set k v kvs)"

text \<open>
  The request classes handed to \<^verbatim>\<open>do_req_resp\<close> (the protocol \<^verbatim>\<open>_ReqWithId\<close>), with the
  fields their constructor calls in the facade show, and the correlation field \<^verbatim>\<open>rid\<close>.
  \<^verbatim>\<open>Position\<close> is declared in the models module; it is a parameter \<open>'pos\<close>.
\<close>

datatype 'pos req =
    IndicatorRequest "string option" "string option"
  | ChannelRequest string "string set" "string option"
  | TeleportRequest string 'pos "string option"
  | GetRoomUsersRequest "string option"

text \<open>\<^verbatim>\<open>req.rid\<close> (the last field of each class above) and \<^verbatim>\<open>req.rid = rid\<close>\<close>

fun get_rid :: "'pos req \<Rightarrow> string option" where
  "get_rid (IndicatorRequest _ r) = r"
| "get_rid (ChannelRequest _ _ r) = r"
| "get_rid (TeleportRequest _ _ r) = r"
| "get_rid (GetRoomUsersRequest r) = r"

fun set_rid :: "string option \<Rightarrow> 'pos req \<Rightarrow> 'pos req" where
  "set_rid r (IndicatorRequest i _) = IndicatorRequest i r"
| "set_rid r (ChannelRequest m t _) = ChannelRequest m t r"
| "set_rid r (TeleportRequest u d _) = TeleportRequest u d r"
| "set_rid r (GetRoomUsersRequest _) = GetRoomUsersRequest r"

text \<open>\<^verbatim>\<open>type(req).__name__\<close>\<close>

fun class_name :: "'pos req \<Rightarrow> string" where
  "class_name (IndicatorRequest _ _) = ''IndicatorRequest''"
| "class_name (ChannelRequest _ _ _) = ''ChannelRequest''"
| "class_name (TeleportRequest _ _ _) = ''TeleportRequest''"
| "class_name (GetRoomUsersRequest _) = ''GetRoomUsersRequest''"

text \<open>The members of the union \<^verbatim>\<open>Outgoing\<close>, by class name, in the order of the source.\<close>

definition Outgoing :: "string list" where
  "Outgoing = [''ChatEvent'', ''ChannelEvent'', ''GetRoomUsersRequest'',
               ''IndicatorRequest'', ''ChannelRequest'', ''TeleportRequest'']"

text \<open>
  A call on the transport \<^verbatim>\<open>ws\<close>. The facade uses two of its methods:
  \<^verbatim>\<open>ws.send_json(payload)\<close> with a hand-built dict, and
  \<^verbatim>\<open>ws.send_str(converter.dumps(req, Outgoing))\<close>. The converter is the cattrs JSON
  converter configured by \<^verbatim>\<open>_unions.configure_tagged_union\<close>; neither is part of the
  source file, so the second kind of call is recorded with the value given to the codec.
\<close>

datatype ('pos, 'flt) ws_call =
    Send_json "'flt payload"
  | Send_str_dumps "'pos req"

fun via_converter :: "('pos, 'flt) ws_call \<Rightarrow> bool" where
  "via_converter (Send_str_dumps _) = True"
| "via_converter (Send_json _) = False"

section \<open>The process state\<close>

text \<open>
  \<^verbatim>\<open>_req_id = count()\<close> and \<^verbatim>\<open>_req_id_registry = {}\<close> are class attributes of
  \<^verbatim>\<open>Highrise\<close>, so there is one of each per process. \<open>req_id\<close> is the number the next
  \<^verbatim>\<open>next()\<close> returns. The registry maps a correlation id to a \<^verbatim>\<open>Queue\<close> object; the
  caller of \<^verbatim>\<open>do_req_resp\<close> keeps a second reference to the same object in its local
  \<^verbatim>\<open>q\<close>, so queue objects live in a heap \<open>queues\<close>, addressed by their index, and the
  registry and the caller hold addresses. \<open>ws\<close> is the list of calls made on the
  transport, oldest first.
\<close>

record ('pos, 'flt, 'any) Highrise =
  ws :: "('pos, 'flt) ws_call list"
  req_id :: nat
  req_id_registry :: "string \<rightharpoonup> nat"
  queues :: "'any list list"

definition Highrise_init :: "('pos, 'flt, 'any) Highrise" where
  "Highrise_init = \<lparr>ws = [], req_id = 0, req_id_registry = Map.empty, queues = []\<rparr>"

text \<open>
  What a coroutine of the facade has reached when it stops running: it has returned,
  or it stands at \<^verbatim>\<open>return await q.get()\<close> with its local \<^verbatim>\<open>q\<close>.
\<close>

datatype 'r coro = Return 'r | Await_get nat

subsection \<open>Library operations the source calls\<close>

text \<open>\<^verbatim>\<open>str(n)\<close> for a non-negative Python int: its decimal digits.\<close>

definition digit :: "nat \<Rightarrow> char" where
  "digit d = char_of (48 + d)"

function str :: "nat \<Rightarrow> string" where
  "str n = (if n < 10 then [digit n] else str (n div 10) @ [digit (n mod 10)])"
  by pat_completeness auto
termination
  by (relation "measure id") auto

declare str.simps [simp del]

text \<open>\<^verbatim>\<open>str(s)\<close> for a string \<open>s\<close> is \<open>s\<close>.\<close>

definition str_of_str :: "string \<Rightarrow> string" where
  "str_of_str s = s"

text \<open>\<^verbatim>\<open>next(hr._req_id)\<close>\<close>

definition next_req_id :: "('pos, 'flt, 'any) Highrise \<Rightarrow> nat \<times> ('pos, 'flt, 'any) Highrise" where
  "next_req_id hr = (req_id hr, hr\<lparr>req_id := Suc (req_id hr)\<rparr>)"

text \<open>\<^verbatim>\<open>Queue[Any](maxsize=1)\<close>: a new, empty queue object.\<close>

definition maxsize :: nat where
  "maxsize = 1"

definition new_Queue :: "('pos, 'flt, 'any) Highrise \<Rightarrow> nat \<times> ('pos, 'flt, 'any) Highrise" where
  "new_Queue hr = (length (queues hr), hr\<lparr>queues := queues hr @ [[]]\<rparr>)"

text \<open>\<^verbatim>\<open>hr._req_id_registry[rid] = q\<close>\<close>

definition registry_set ::
  "string \<Rightarrow> nat \<Rightarrow> ('pos, 'flt, 'any) Highrise \<Rightarrow> ('pos, 'flt, 'any) Highrise" where
  "registry_set r q hr = hr\<lparr>req_id_registry := (req_id_registry hr)(r \<mapsto> q)\<rparr>"

text \<open>A call on \<^verbatim>\<open>hr.ws\<close>.\<close>

definition ws_send ::
  "('pos, 'flt) ws_call \<Rightarrow> ('pos, 'flt, 'any) Highrise \<Rightarrow> ('pos, 'flt, 'any) Highrise" where
  "ws_send c hr = hr\<lparr>ws := ws hr @ [c]\<rparr>"

text \<open>
  \<^verbatim>\<open>q.put_nowait(v)\<close>: a queue that already holds \<open>maxsize\<close> items raises
  \<^verbatim>\<open>QueueFull\<close> (the result \<open>None\<close>).
\<close>

definition put_nowait ::
  "nat \<Rightarrow> 'any \<Rightarrow> ('pos, 'flt, 'any) Highrise \<Rightarrow> ('pos, 'flt, 'any) Highrise option" where
  "put_nowait q v hr =
     (if q < length (queues hr) \<and> length (queues hr ! q) < maxsize
      then Some (hr\<lparr>queues := (queues hr)[q := queues hr ! q @ [v]]\<rparr>)
      else None)"

text \<open>
  \<^verbatim>\<open>await q.get()\<close>: takes the oldest item out of the queue and returns it. On an
  empty queue the caller stays suspended: the result is \<open>None\<close> and can be asked again
  in a later state.
\<close>

definition await_get ::
  "nat \<Rightarrow> ('pos, 'flt, 'any) Highrise \<Rightarrow> ('any \<times> ('pos, 'flt, 'any) Highrise) option" where
  "await_get q hr =
     (if q < length (queues hr)
      then (case queues hr ! q of
              [] \<Rightarrow> None
            | v # vs \<Rightarrow> Some (v, hr\<lparr>queues := (queues hr)[q := vs]\<rparr>))
      else None)"

section \<open>The request correlator\<close>

definition do_req_resp ::
  "('pos, 'flt, 'any) Highrise \<Rightarrow> 'pos req \<Rightarrow> 'any coro \<times> ('pos, 'flt, 'any) Highrise" where
  "do_req_resp hr req =
     (let (n, hr1) = next_req_id hr;
          rid = str n;
          req1 = set_rid (Some rid) req;
          (q, hr2) = new_Queue hr1;
          hr3 = registry_set rid q hr2;
          hr4 = ws_send (Send_str_dumps req1) hr3
      in (Await_get q, hr4))"

section \<open>The connection facade\<close>

definition chat ::
  "('pos, 'flt, 'any) Highrise \<Rightarrow> string \<Rightarrow> unit coro \<times> ('pos, 'flt, 'any) Highrise" where
  "chat self message =
     (Return (), ws_send (Send_json [(''_type'', Str ''ChatRequest''), (''message'', Str message)]) self)"

definition send_whisper ::
  "('pos, 'flt, 'any) Highrise \<Rightarrow> string \<Rightarrow> string \<Rightarrow> unit coro \<times> ('pos, 'flt, 'any) Highrise" where
  "send_whisper self user_id message =
     (Return (),
      ws_send (Send_json [(''_type'', Str ''ChatRequest''), (''message'', Str message),
                          (''whisper_target_id'', Str user_id)]) self)"

definition send_emote ::
  "('pos, 'flt, 'any) Highrise \<Rightarrow> string \<Rightarrow> string option \<Rightarrow>
   unit coro \<times> ('pos, 'flt, 'any) Highrise" where
  "send_emote self emote_id target_user_id =
     (let payload = [(''_type'', Str ''EmoteRequest''), (''emote_id'', Str emote_id)];
          payload = (case target_user_id of
                       None \<Rightarrow> payload
                     | Some t \<Rightarrow> dict_set ''target_user_id'' (Str t) payload)
      in (Return (), ws_send (Send_json payload) self))"

definition set_indicator ::
  "('pos, 'flt, 'any) Highrise \<Rightarrow> string option \<Rightarrow> 'any coro \<times> ('pos, 'flt, 'any) Highrise" where
  "set_indicator self icon = do_req_resp self (IndicatorRequest icon None)"

definition send_channel ::
  "('pos, 'flt, 'any) Highrise \<Rightarrow> string \<Rightarrow> string set \<Rightarrow>
   'any coro \<times> ('pos, 'flt, 'any) Highrise" where
  "send_channel self message tags = do_req_resp self (ChannelRequest message tags None)"

definition walk_to ::
  "('pos, 'flt, 'any) Highrise \<Rightarrow> 'flt \<times> 'flt \<times> 'flt \<Rightarrow> string \<Rightarrow>
   unit coro \<times> ('pos, 'flt, 'any) Highrise" where
  "walk_to self dest facing =
     (case dest of (x, y, z) \<Rightarrow>
        (Return (),
         ws_send (Send_json [(''_type'', Str ''FloorHitRequest''),
                             (''destination'', Tuple [Float x, Float y, Float z]),
                             (''facing'', Str facing)]) self))"

definition teleport ::
  "('pos, 'flt, 'any) Highrise \<Rightarrow> string \<Rightarrow> 'pos \<Rightarrow> 'any coro \<times> ('pos, 'flt, 'any) Highrise" where
  "teleport self user_id dest = do_req_resp self (TeleportRequest user_id dest None)"

definition get_room_users ::
  "('pos, 'flt, 'any) Highrise \<Rightarrow> 'any coro \<times> ('pos, 'flt, 'any) Highrise" where
  "get_room_users self =
     (let (n, hr1) = next_req_id self;
          req_id = str n;
          (q, hr2) = new_Queue hr1;
          hr3 = registry_set req_id q hr2;
          hr4 = ws_send (Send_str_dumps (GetRoomUsersRequest (Some (str_of_str req_id)))) hr3
      in (Await_get q, hr4))"

text \<open>
  What a one-way send does to the state \<open>hr\<close> it starts in: the call has returned
  \<^verbatim>\<open>None\<close>, the transport got one more call, and nothing else changed.
\<close>

definition one_way ::
  "('pos, 'flt, 'any) Highrise \<Rightarrow> unit coro \<times> ('pos, 'flt, 'any) Highrise \<Rightarrow> bool" where
  "one_way hr res =
     (case res of
        (Return u, hr') \<Rightarrow>
          length (ws hr') = Suc (length (ws hr)) \<and> butlast (ws hr') = ws hr \<and>
          req_id hr' = req_id hr \<and> req_id_registry hr' = req_id_registry hr \<and>
          queues hr' = queues hr
      | (Await_get q, hr') \<Rightarrow> False)"

section \<open>The default handlers\<close>

text \<open>
  The methods of \<^verbatim>\<open>class BaseBot\<close>. Each body is a docstring and \<^verbatim>\<open>pass\<close>. \<open>self\<close>
  stands for everything the method could reach through \<^verbatim>\<open>self\<close> (the bot and, through
  \<^verbatim>\<open>self.highrise\<close>, the process state); the classes of the arguments are declared in the
  models module and are type parameters.
\<close>

definition on_start :: "'w \<Rightarrow> 'meta \<Rightarrow> unit coro \<times> 'w" where
  "on_start self session_metadata = (Return (), self)"

definition on_chat :: "'w \<Rightarrow> 'user \<Rightarrow> string \<Rightarrow> unit coro \<times> 'w" where
  "on_chat self user message = (Return (), self)"

definition on_whisper :: "'w \<Rightarrow> 'user \<Rightarrow> string \<Rightarrow> unit coro \<times> 'w" where
  "on_whisper self user message = (Return (), self)"

definition on_emote :: "'w \<Rightarrow> 'user \<Rightarrow> string \<Rightarrow> 'user option \<Rightarrow> unit coro \<times> 'w" where
  "on_emote self user emote_id receiver = (Return (), self)"

definition on_user_join :: "'w \<Rightarrow> 'user \<Rightarrow> unit coro \<times> 'w" where
  "on_user_join self user = (Return (), self)"

definition on_tip :: "'w \<Rightarrow> 'user \<Rightarrow> 'user \<Rightarrow> 'item \<Rightarrow> unit coro \<times> 'w" where
  "on_tip self sender receiver tip = (Return (), self)"

definition on_channel :: "'w \<Rightarrow> string \<Rightarrow> string set \<Rightarrow> unit coro \<times> 'w" where
  "on_channel self message tags = (Return (), self)"

text \<open>The names of the methods \<^verbatim>\<open>class BaseBot\<close> defines, in the order of the source.\<close>

definition BaseBot :: "string list" where
  "BaseBot = [''on_start'', ''on_chat'', ''on_whisper'', ''on_emote'', ''on_user_join'',
              ''on_tip'', ''on_channel'']"

section \<open>The delivery step and runs of the process\<close>

text \<open>
  Modelled from the spec: the delivery step of the inbound read loop (spec section 4.2),
  which is not in the source file. Given a decoded incoming message with its correlation
  id: if the message carries an id and the registry has an entry for it, the message is
  put into that entry's queue and the entry is removed; with no id, or no entry for the
  id, nothing happens. The result \<open>None\<close> is the \<^verbatim>\<open>QueueFull\<close> of a put into a full
  queue.
\<close>

definition deliver ::
  "string option \<Rightarrow> 'any \<Rightarrow> ('pos, 'flt, 'any) Highrise \<Rightarrow> ('pos, 'flt, 'any) Highrise option" where
  "deliver r msg hr =
     (case r of
        None \<Rightarrow> Some hr
      | Some rid \<Rightarrow>
          (case req_id_registry hr rid of
             None \<Rightarrow> Some hr
           | Some q \<Rightarrow>
               put_nowait q msg (hr\<lparr>req_id_registry := (req_id_registry hr)(rid := None)\<rparr>)))"

text \<open>
  What can happen in the process, one event at a time (the coroutines run on one thread
  and give up control only at an \<^verbatim>\<open>await\<close>): a call of a facade method, run up to its
  send; a delivery by the read loop; a caller standing at \<^verbatim>\<open>await q.get()\<close> taking its
  value. \<open>step\<close> is \<open>None\<close> when the event cannot happen in the state (an empty queue
  keeps its caller suspended) or raises.
\<close>

datatype ('pos, 'flt, 'any) event =
    Chat string
  | Send_whisper string string
  | Send_emote string "string option"
  | Set_indicator "string option"
  | Send_channel string "string set"
  | Walk_to "'flt \<times> 'flt \<times> 'flt" string
  | Teleport string 'pos
  | Get_room_users
  | Deliver "string option" 'any
  | Resume nat

fun step ::
  "('pos, 'flt, 'any) event \<Rightarrow> ('pos, 'flt, 'any) Highrise \<Rightarrow> ('pos, 'flt, 'any) Highrise option" where
  "step (Chat m) hr = Some (snd (chat hr m))"
| "step (Send_whisper u m) hr = Some (snd (send_whisper hr u m))"
| "step (Send_emote e t) hr = Some (snd (send_emote hr e t))"
| "step (Set_indicator i) hr = Some (snd (set_indicator hr i))"
| "step (Send_channel m t) hr = Some (snd (send_channel hr m t))"
| "step (Walk_to d f) hr = Some (snd (walk_to hr d f))"
| "step (Teleport u d) hr = Some (snd (teleport hr u d))"
| "step Get_room_users hr = Some (snd (get_room_users hr))"
| "step (Deliver r v) hr = deliver r v hr"
| "step (Resume q) hr = map_option snd (await_get q hr)"

fun run ::
  "('pos, 'flt, 'any) event list \<Rightarrow> ('pos, 'flt, 'any) Highrise \<Rightarrow>
   ('pos, 'flt, 'any) Highrise option" where
  "run [] hr = Some hr"
| "run (e # es) hr = (case step e hr of None \<Rightarrow> None | Some hr' \<Rightarrow> run es hr')"

text \<open>The correlation ids stamped on the requests sent so far, oldest first.\<close>

fun sent_rid :: "('pos, 'flt) ws_call \<Rightarrow> string option list" where
  "sent_rid (Send_str_dumps r) = [get_rid r]"
| "sent_rid (Send_json _) = []"

definition stamped :: "('pos, 'flt, 'any) Highrise \<Rightarrow> string option list" where
  "stamped hr = concat (map sent_rid (ws hr))"

text \<open>
  Events that leave one pending request alone: they neither deliver to its id nor take
  from its queue.
\<close>

fun leaves ::  "string \<Rightarrow> nat \<Rightarrow> ('pos, 'flt, 'any) event \<Rightarrow> bool" where
  "leaves rid q (Deliver r v) = (r \<noteq> Some rid)"
| "leaves rid q (Resume q') = (q' \<noteq> q)"
| "leaves rid q _ = True"


text \<open>The call a facade method has just made on the transport.\<close>

definition frame_of :: "'r coro \<times> ('pos, 'flt, 'any) Highrise \<Rightarrow> ('pos, 'flt) ws_call" where
  "frame_of res = last (ws (snd res))"

text \<open>
  The invariant of the process: the requests sent so far carry the ids
  \<open>str 0, str 1, \<dots>\<close> up to the counter, in this order; every key of the registry is such an
  id and refers to an allocated queue; and no two keys refer to the same queue.
\<close>

definition inv :: "('pos, 'flt, 'any) Highrise \<Rightarrow> bool" where
  "inv hr \<longleftrightarrow>
     stamped hr = map (\<lambda>n. Some (str n)) [0..<req_id hr] \<and>
     (\<forall>k q. req_id_registry hr k = Some q \<longrightarrow> (\<exists>n<req_id hr. k = str n) \<and> q < length (queues hr)) \<and>
     inj_on (req_id_registry hr) (dom (req_id_registry hr))"


text \<open>
  A request with id \<open>rid\<close> and queue \<open>q\<close> that waits for its response, and one whose
  response \<open>v\<close> has been delivered and not yet taken by the caller.
\<close>

definition pending :: "string \<Rightarrow> nat \<Rightarrow> ('pos, 'flt, 'any) Highrise \<Rightarrow> bool" where
  "pending rid q hr \<longleftrightarrow>
     inv hr \<and> req_id_registry hr rid = Some q \<and> queues hr ! q = []"

definition answered :: "string \<Rightarrow> nat \<Rightarrow> 'any \<Rightarrow> ('pos, 'flt, 'any) Highrise \<Rightarrow> bool" where
  "answered rid q v hr \<longleftrightarrow>
     inv hr \<and> req_id_registry hr rid = None \<and> (\<exists>n<req_id hr. rid = str n) \<and>
     q \<notin> ran (req_id_registry hr) \<and> q < length (queues hr) \<and> queues hr ! q = [v]"


section \<open>Facts about the operations\<close>

text \<open>\<^verbatim>\<open>str\<close> gives different numbers different strings.\<close>

lemma digit_inj: "a < 10 \<Longrightarrow> b < 10 \<Longrightarrow> digit a = digit b \<Longrightarrow> a = b"
proof -
  assume a: "a < 10" and b: "b < 10" and e: "digit a = digit b"
  from e have "(of_char (digit a) :: nat) = of_char (digit b)" by simp
  with a b show "a = b" by (simp add: digit_def)
qed

lemma str_not_Nil: "str n \<noteq> []"
  by (subst str.simps) simp

lemma str_inj: "str m = str n \<Longrightarrow> m = n"
proof (induction m arbitrary: n rule: str.induct)
  case (1 m)
  show ?case
  proof (cases "m < 10")
    case m: True
    show ?thesis
    proof (cases "n < 10")
      case True
      with m "1.prems" show ?thesis
        by (simp add: str.simps [of m] str.simps [of n] digit_inj)
    next
      case False
      with m "1.prems" str_not_Nil [of "n div 10"] show ?thesis
        by (simp add: str.simps [of m] str.simps [of n])
    qed
  next
    case m: False
    show ?thesis
    proof (cases "n < 10")
      case True
      with m "1.prems" str_not_Nil [of "m div 10"] show ?thesis
        by (simp add: str.simps [of m] str.simps [of n])
    next
      case False
      with m "1.prems" have a: "str (m div 10) = str (n div 10)"
        and b: "digit (m mod 10) = digit (n mod 10)"
        by (simp_all add: str.simps [of m] str.simps [of n])
      from "1.IH" [OF m a] have "m div 10 = n div 10" .
      moreover from b have "m mod 10 = n mod 10"
        by (simp add: digit_inj)
      ultimately show ?thesis
        by (metis div_mult_mod_eq)
    qed
  qed
qed

lemma str_0: "str 0 = ''0''" by code_simp
lemma str_Suc_0: "str (Suc 0) = ''1''" by code_simp
lemma str_2: "str 2 = ''2''" by code_simp
lemma str_Suc_Suc_0: "str (Suc (Suc 0)) = ''2''" by code_simp

lemma get_rid_set_rid: "get_rid (set_rid r req) = r"
  by (cases req) simp_all

lemma class_name_set_rid: "class_name (set_rid r req) = class_name req"
  by (cases req) simp_all

lemma do_req_resp_eq:
  "do_req_resp hr req =
     (Await_get (length (queues hr)),
      hr\<lparr>ws := ws hr @ [Send_str_dumps (set_rid (Some (str (req_id hr))) req)],
         req_id := Suc (req_id hr),
         req_id_registry := (req_id_registry hr)(str (req_id hr) \<mapsto> length (queues hr)),
         queues := queues hr @ [[]]\<rparr>)"
  by (simp add: do_req_resp_def next_req_id_def new_Queue_def registry_set_def ws_send_def Let_def)

lemma get_room_users_eq: "get_room_users hr = do_req_resp hr (GetRoomUsersRequest r)"
  by (simp add: get_room_users_def do_req_resp_def next_req_id_def new_Queue_def
      registry_set_def ws_send_def str_of_str_def Let_def)

lemmas run_defs = chat_def send_whisper_def send_emote_def set_indicator_def send_channel_def
  walk_to_def teleport_def get_room_users_def do_req_resp_def next_req_id_def new_Queue_def
  registry_set_def ws_send_def str_of_str_def deliver_def put_nowait_def await_get_def
  maxsize_def Highrise_init_def Let_def str_0 str_Suc_0 str_Suc_Suc_0


section \<open>One-way sends\<close>

text \<open>
  C7. A one-way send such as \<^verbatim>\<open>chat(message)\<close> hands exactly one frame to the
  transport and returns: it does not wait on any queue, and it leaves the id counter, the
  registry and every queue as they were. The same holds for the other one-way sends.
\<close>

theorem chat_one_frame_no_registry:
  "chat hr m =
     (Return (),
      hr\<lparr>ws := ws hr @ [Send_json [(''_type'', Str ''ChatRequest''), (''message'', Str m)]]\<rparr>)
   \<and> length (ws (snd (chat hr m))) = Suc (length (ws hr))
   \<and> req_id (snd (chat hr m)) = req_id hr
   \<and> req_id_registry (snd (chat hr m)) = req_id_registry hr
   \<and> queues (snd (chat hr m)) = queues hr
   \<and> one_way hr (chat hr m)
   \<and> one_way hr (send_whisper hr u m)
   \<and> one_way hr (send_emote hr e t)
   \<and> one_way hr (walk_to hr d f)"
  by (cases d) (simp add: chat_def send_whisper_def send_emote_def walk_to_def ws_send_def
      one_way_def Let_def)

text \<open>
  C10. \<^verbatim>\<open>send_emote(emote_id, target_user_id)\<close> sends a JSON object with
  \<^verbatim>\<open>_type\<close> "EmoteRequest" and the given \<^verbatim>\<open>emote_id\<close>; the key
  \<^verbatim>\<open>target_user_id\<close> is in it, with the given value, exactly when the argument is
  not \<^verbatim>\<open>None\<close>, and is absent (not null) otherwise.
\<close>

theorem send_emote_target_key:
  "send_emote hr e t =
     (Return (),
      ws_send (Send_json ([(''_type'', Str ''EmoteRequest''), (''emote_id'', Str e)] @
                          (case t of None \<Rightarrow> [] | Some u \<Rightarrow> [(''target_user_id'', Str u)]))) hr)
   \<and> (\<exists>payload. ws (snd (send_emote hr e t)) = ws hr @ [Send_json payload]
        \<and> map_of payload ''_type'' = Some (Str ''EmoteRequest'')
        \<and> map_of payload ''emote_id'' = Some (Str e)
        \<and> map_of payload ''target_user_id'' = map_option Str t
        \<and> (''target_user_id'' \<in> fst ` set payload) = (t \<noteq> None)
        \<and> distinct (map fst payload))"
  by (cases t) (simp_all add: send_emote_def ws_send_def Let_def)

section \<open>Correlation ids\<close>

lemma inv_init: "inv Highrise_init"
  by (simp add: inv_def Highrise_init_def stamped_def)

lemma inv_do_req_resp:
  assumes "inv hr"
  shows "inv (snd (do_req_resp hr req))"
proof -
  let ?k = "str (req_id hr)" and ?q = "length (queues hr)"
  from assms have st: "stamped hr = map (\<lambda>n. Some (str n)) [0..<req_id hr]"
    and reg: "\<And>k q. req_id_registry hr k = Some q \<Longrightarrow> (\<exists>n<req_id hr. k = str n) \<and> q < length (queues hr)"
    and inj: "inj_on (req_id_registry hr) (dom (req_id_registry hr))"
    by (auto simp: inv_def)
  have fresh: "req_id_registry hr ?k = None"
  proof (cases "req_id_registry hr ?k")
    case (Some q)
    from reg [OF Some] obtain n where "n < req_id hr" "?k = str n" by blast
    then show ?thesis by (auto dest: str_inj)
  qed simp
  have "inj_on ((req_id_registry hr)(?k \<mapsto> ?q)) (dom ((req_id_registry hr)(?k \<mapsto> ?q)))"
  proof (rule inj_onI)
    fix a b
    assume a: "a \<in> dom ((req_id_registry hr)(?k \<mapsto> ?q))"
      and b: "b \<in> dom ((req_id_registry hr)(?k \<mapsto> ?q))"
      and e: "((req_id_registry hr)(?k \<mapsto> ?q)) a = ((req_id_registry hr)(?k \<mapsto> ?q)) b"
    show "a = b"
    proof (cases "a = ?k")
      case True
      show ?thesis
      proof (cases "b = ?k")
        case False
        with b obtain q where q: "req_id_registry hr b = Some q" by auto
        with True False e have "q = ?q" by simp
        with reg [OF q] show ?thesis by simp
      qed (simp add: True)
    next
      case False
      with a obtain q where q: "req_id_registry hr a = Some q" by auto
      show ?thesis
      proof (cases "b = ?k")
        case True
        with False e q have "q = ?q" by simp
        with reg [OF q] show ?thesis by simp
      next
        case bf: False
        with False e have "req_id_registry hr a = req_id_registry hr b" by simp
        moreover from a b False bf have "a \<in> dom (req_id_registry hr)" "b \<in> dom (req_id_registry hr)"
          by auto
        ultimately show ?thesis using inj by (auto dest: inj_onD)
      qed
    qed
  qed
  moreover have "stamped (snd (do_req_resp hr req)) = map (\<lambda>n. Some (str n)) [0..<Suc (req_id hr)]"
    using st by (simp add: do_req_resp_eq stamped_def get_rid_set_rid)
  moreover have "\<And>k q. ((req_id_registry hr)(?k \<mapsto> ?q)) k = Some q \<Longrightarrow>
      (\<exists>n<Suc (req_id hr). k = str n) \<and> q < Suc (length (queues hr))"
    using reg by (auto simp: less_Suc_eq split: if_splits)
  ultimately show ?thesis
    unfolding inv_def by (simp add: do_req_resp_eq)
qed

lemma inv_send_json:
  "inv hr \<Longrightarrow> inv (ws_send (Send_json p) hr)"
  by (simp add: inv_def ws_send_def stamped_def)

lemma inv_put_nowait:
  "inv hr \<Longrightarrow> put_nowait q v hr = Some hr' \<Longrightarrow> inv hr'"
  by (auto simp: inv_def put_nowait_def stamped_def split: if_splits)

lemma inv_remove:
  assumes "inv hr"
  shows "inv (hr\<lparr>req_id_registry := (req_id_registry hr)(k := None)\<rparr>)"
proof -
  from assms have inj: "inj_on (req_id_registry hr) (dom (req_id_registry hr))"
    by (simp add: inv_def)
  have "inj_on ((req_id_registry hr)(k := None)) (dom ((req_id_registry hr)(k := None)))"
    by (rule inj_onI) (use inj in \<open>auto dest!: inj_onD split: if_splits\<close>)
  with assms show ?thesis
    by (auto simp: inv_def stamped_def split: if_splits)
qed

lemma inv_deliver:
  "inv hr \<Longrightarrow> deliver r v hr = Some hr' \<Longrightarrow> inv hr'"
  by (auto simp: deliver_def split: option.splits dest: inv_put_nowait [OF inv_remove])

lemma inv_await_get:
  "inv hr \<Longrightarrow> await_get q hr = Some (v, hr') \<Longrightarrow> inv hr'"
  by (auto simp: inv_def await_get_def stamped_def split: if_splits list.splits)

lemma inv_step:
  "inv hr \<Longrightarrow> step e hr = Some hr' \<Longrightarrow> inv hr'"
proof (cases e)
  case (Walk_to d f)
  assume "inv hr" "step e hr = Some hr'"
  with Walk_to show ?thesis by (cases d) (auto simp: walk_to_def inv_send_json)
qed (auto simp: chat_def send_whisper_def send_emote_def set_indicator_def send_channel_def
    teleport_def get_room_users_eq [where r = None] Let_def
    intro: inv_send_json inv_do_req_resp inv_deliver inv_await_get split: option.splits)

lemma inv_run:
  "inv hr \<Longrightarrow> run es hr = Some hr' \<Longrightarrow> inv hr'"
  by (induction es arbitrary: hr) (auto split: option.splits dest: inv_step)


lemma req_id_step: "step e hr = Some hr' \<Longrightarrow> req_id hr \<le> req_id hr'"
proof (cases e)
  case (Walk_to d f)
  assume "step e hr = Some hr'"
  with Walk_to show ?thesis by (cases d) (auto simp: walk_to_def ws_send_def)
qed (auto simp: chat_def send_whisper_def send_emote_def set_indicator_def send_channel_def
    teleport_def get_room_users_eq [where r = None] do_req_resp_eq Let_def ws_send_def
    deliver_def put_nowait_def await_get_def split: option.splits if_splits list.splits)

lemma req_id_run: "run es hr = Some hr' \<Longrightarrow> req_id hr \<le> req_id hr'"
  by (induction es arbitrary: hr) (fastforce split: option.splits dest: req_id_step)+

lemma distinct_ids: "distinct (map (\<lambda>n. Some (str n)) [0..<k])"
  by (auto simp: distinct_map intro!: inj_onI dest: str_inj)

text \<open>
  C2. Correlation ids come from a counter that only grows and are never reused: after any
  run of the process from its start the requests sent carry the ids \<open>str 0, str 1, \<dots>\<close>
  in order, so any two of them have different ids; the id the next request will get has
  not been stamped on any request and is not in the registry; no two ids of the registry
  share a queue; and whatever runs next, the counter does not go down and the ids stamped
  later extend the list without repeating one.
\<close>

theorem correlation_ids_never_reused:
  assumes "run es Highrise_init = Some hr" and "run es' hr = Some hr'"
  shows "stamped hr = map (\<lambda>n. Some (str n)) [0..<req_id hr]
       \<and> distinct (stamped hr)
       \<and> Some (str (req_id hr)) \<notin> set (stamped hr)
       \<and> req_id_registry hr (str (req_id hr)) = None
       \<and> inj_on (req_id_registry hr) (dom (req_id_registry hr))
       \<and> req_id hr \<le> req_id hr'
       \<and> stamped hr' = stamped hr @ map (\<lambda>n. Some (str n)) [req_id hr..<req_id hr']
       \<and> distinct (stamped hr')"
proof -
  from assms have i: "inv hr" and i': "inv hr'"
    by (auto intro: inv_run [OF inv_init] inv_run)
  from assms(2) have le: "req_id hr \<le> req_id hr'" by (rule req_id_run)
  from i have st: "stamped hr = map (\<lambda>n. Some (str n)) [0..<req_id hr]"
    by (simp add: inv_def)
  from i' have st': "stamped hr' = map (\<lambda>n. Some (str n)) [0..<req_id hr']"
    by (simp add: inv_def)
  have fresh: "req_id_registry hr (str (req_id hr)) = None"
  proof (cases "req_id_registry hr (str (req_id hr))")
    case (Some q)
    with i obtain n where "n < req_id hr" "str (req_id hr) = str n"
      unfolding inv_def by blast
    then show ?thesis by (auto dest: str_inj)
  qed simp
  have new: "Some (str (req_id hr)) \<notin> set (stamped hr)"
    unfolding st by (auto dest: str_inj)
  from le have "[0..<req_id hr'] = [0..<req_id hr] @ [req_id hr..<req_id hr']"
    by (metis le_add_diff_inverse upt_add_eq_append zero_le)
  with st st' have app: "stamped hr' = stamped hr @ map (\<lambda>n. Some (str n)) [req_id hr..<req_id hr']"
    by simp
  from i have "inj_on (req_id_registry hr) (dom (req_id_registry hr))"
    by (simp add: inv_def)
  moreover have "distinct (stamped hr)" "distinct (stamped hr')"
    unfolding st st' by (rule distinct_ids)+
  ultimately show ?thesis
    using st fresh new le app by blast
qed


theorem correlation_ids_never_reused_witness:
  "\<exists>hr hr'. run [Teleport ''u1'' (), Chat ''hi'', Get_room_users]
              (Highrise_init :: (unit, unit, string) Highrise) = Some hr
     \<and> run [Deliver (Some ''0'') ''TeleportResponse'', Resume 0, Set_indicator None] hr = Some hr'
     \<and> stamped hr = [Some ''0'', Some ''1'']
     \<and> stamped hr' = [Some ''0'', Some ''1'', Some ''2'']
     \<and> distinct (stamped hr')
     \<and> req_id_registry hr (str (req_id hr)) = None
     \<and> req_id hr \<le> req_id hr'"
proof -
  obtain hr :: "(unit, unit, string) Highrise" and hr'
    where r: "run [Teleport ''u1'' (), Chat ''hi'', Get_room_users] Highrise_init = Some hr"
      and r': "run [Deliver (Some ''0'') ''TeleportResponse'', Resume 0, Set_indicator None] hr = Some hr'"
      and n: "req_id hr = 2" "req_id hr' = 3"
    by (simp add: run_defs)
  have u: "[0..<2] = [0, Suc 0]" "[2..<3] = [Suc (Suc 0)]"
    by (simp_all add: upt_rec)
  from correlation_ids_never_reused [OF r r'] r r' n u show ?thesis
    by (simp add: str_0 str_Suc_0 str_2)
qed


section \<open>A request and its response\<close>

lemma inv_regD:
  "inv hr \<Longrightarrow> req_id_registry hr k = Some q \<Longrightarrow> (\<exists>n<req_id hr. k = str n) \<and> q < length (queues hr)"
  by (simp add: inv_def)

lemma inv_injD:
  "inv hr \<Longrightarrow> req_id_registry hr a = Some q \<Longrightarrow> req_id_registry hr b = Some q \<Longrightarrow> a = b"
  unfolding inv_def by (auto dest!: inj_onD [where x = a and y = b])


lemma pending_start:
  assumes "inv hr"
  shows "pending (str (req_id hr)) (length (queues hr)) (snd (do_req_resp hr req))"
  using inv_do_req_resp [OF assms, of req]
  by (simp add: pending_def) (simp add: do_req_resp_eq)

lemma pending_do_req_resp:
  assumes "pending rid q hr"
  shows "pending rid q (snd (do_req_resp hr req))"
proof -
  from assms have i: "inv hr" and r: "req_id_registry hr rid = Some q" and e: "queues hr ! q = []"
    by (simp_all add: pending_def)
  from inv_regD [OF i r] have lt: "q < length (queues hr)" and "\<exists>n<req_id hr. rid = str n" by simp_all
  then have ne: "str (req_id hr) \<noteq> rid" by (auto dest: str_inj)
  from inv_do_req_resp [OF i, of req] r e lt ne show ?thesis
    by (simp add: pending_def) (simp add: do_req_resp_eq nth_append)
qed

lemma pending_send_json:
  "pending rid q hr \<Longrightarrow> pending rid q (ws_send (Send_json p) hr)"
  by (simp add: pending_def inv_send_json) (simp add: ws_send_def)

lemma pending_deliver_other:
  assumes "pending rid q hr" and "r \<noteq> Some rid" and "deliver r v hr = Some hr'"
  shows "pending rid q hr'"
proof -
  from assms(1) have i: "inv hr" and rq: "req_id_registry hr rid = Some q" and e: "queues hr ! q = []"
    by (simp_all add: pending_def)
  from i assms(3) have i': "inv hr'" by (rule inv_deliver)
  show ?thesis
  proof (cases r)
    case None
    with assms show ?thesis by (simp add: deliver_def)
  next
    case (Some k)
    with assms(2) have kr: "k \<noteq> rid" by simp
    show ?thesis
    proof (cases "req_id_registry hr k")
      case None
      with Some assms show ?thesis by (simp add: deliver_def)
    next
      case q': (Some q')
      from rq q' kr have "q' \<noteq> q" by (auto dest: inv_injD [OF i])
      with Some q' assms(3) rq e kr i' show ?thesis
        by (auto simp: deliver_def put_nowait_def pending_def split: if_splits)
    qed
  qed
qed

lemma pending_resume_other:
  assumes "pending rid q hr" and "q' \<noteq> q" and "await_get q' hr = Some (v, hr')"
  shows "pending rid q hr'"
  using assms inv_await_get [of hr q' v hr']
  by (auto simp: pending_def await_get_def split: if_splits list.splits)

lemma pending_step:
  assumes "pending rid q hr" and "leaves rid q e" and "step e hr = Some hr'"
  shows "pending rid q hr'"
proof (cases e)
  case (Walk_to d f)
  with assms show ?thesis by (cases d) (auto simp: walk_to_def pending_send_json)
next
  case (Deliver r v)
  with assms show ?thesis by (auto intro: pending_deliver_other)
next
  case (Resume q')
  with assms show ?thesis by (auto intro: pending_resume_other)
qed (use assms in \<open>auto simp: chat_def send_whisper_def send_emote_def set_indicator_def
    send_channel_def teleport_def get_room_users_eq [where r = None] Let_def
    intro: pending_send_json pending_do_req_resp split: option.splits\<close>)

lemma pending_run:
  "pending rid q hr \<Longrightarrow> list_all (leaves rid q) es \<Longrightarrow> run es hr = Some hr' \<Longrightarrow> pending rid q hr'"
  by (induction es arbitrary: hr) (auto split: option.splits dest: pending_step)

lemma pending_deliver:
  assumes "pending rid q hr"
  shows "\<exists>hr'. deliver (Some rid) v hr = Some hr' \<and> answered rid q v hr'"
proof -
  from assms have i: "inv hr" and rq: "req_id_registry hr rid = Some q" and e: "queues hr ! q = []"
    by (simp_all add: pending_def)
  from inv_regD [OF i rq] have lt: "q < length (queues hr)" and n: "\<exists>n<req_id hr. rid = str n"
    by simp_all
  let ?hr' = "hr\<lparr>req_id_registry := (req_id_registry hr)(rid := None),
                 queues := (queues hr)[q := [v]]\<rparr>"
  have d: "deliver (Some rid) v hr = Some ?hr'"
    using rq e lt by (simp add: deliver_def put_nowait_def maxsize_def)
  from i d have i': "inv ?hr'" by (rule inv_deliver)
  from rq have "q \<notin> ran ((req_id_registry hr)(rid := None))"
    by (auto simp: ran_def dest: inv_injD [OF i] split: if_splits)
  with i' n lt d show ?thesis by (simp add: answered_def)
qed

lemma answered_do_req_resp:
  assumes "answered rid q v hr"
  shows "answered rid q v (snd (do_req_resp hr req))"
proof -
  from assms have i: "inv hr" and r: "req_id_registry hr rid = None"
    and n: "\<exists>n<req_id hr. rid = str n" and nr: "q \<notin> ran (req_id_registry hr)"
    and lt: "q < length (queues hr)" and c: "queues hr ! q = [v]"
    by (simp_all add: answered_def)
  from n have ne: "str (req_id hr) \<noteq> rid" by (auto dest: str_inj)
  from n have n': "\<exists>n<Suc (req_id hr). rid = str n" by (auto simp: less_Suc_eq)
  from nr lt have "q \<notin> ran ((req_id_registry hr)(str (req_id hr) \<mapsto> length (queues hr)))"
    by (auto simp: ran_def split: if_splits)
  with inv_do_req_resp [OF i, of req] r ne n' lt c show ?thesis
    by (simp add: answered_def) (simp add: do_req_resp_eq nth_append)
qed

lemma answered_send_json:
  "answered rid q v hr \<Longrightarrow> answered rid q v (ws_send (Send_json p) hr)"
  by (simp add: answered_def inv_send_json) (simp add: ws_send_def)

lemma answered_deliver:
  assumes "answered rid q v hr" and "deliver r w hr = Some hr'"
  shows "answered rid q v hr'"
proof -
  from assms(1) have i: "inv hr" and nr: "q \<notin> ran (req_id_registry hr)"
    by (simp_all add: answered_def)
  from i assms(2) have i': "inv hr'" by (rule inv_deliver)
  show ?thesis
  proof (cases r)
    case None
    with assms show ?thesis by (simp add: deliver_def)
  next
    case (Some k)
    show ?thesis
    proof (cases "req_id_registry hr k")
      case None
      with Some assms show ?thesis by (simp add: deliver_def)
    next
      case q': (Some q')
      with nr have ne: "q' \<noteq> q" by (auto simp: ran_def)
      from nr have "q \<notin> ran ((req_id_registry hr)(k := None))"
        by (auto simp: ran_def split: if_splits)
      with Some q' ne assms i' show ?thesis
        by (auto simp: deliver_def put_nowait_def answered_def split: if_splits)
    qed
  qed
qed

lemma answered_resume_other:
  assumes "answered rid q v hr" and "q' \<noteq> q" and "await_get q' hr = Some (w, hr')"
  shows "answered rid q v hr'"
  using assms inv_await_get [of hr q' w hr']
  by (auto simp: answered_def await_get_def split: if_splits list.splits)

lemma answered_step:
  assumes "answered rid q v hr" and "Resume q \<noteq> e" and "step e hr = Some hr'"
  shows "answered rid q v hr'"
proof (cases e)
  case (Walk_to d f)
  with assms show ?thesis by (cases d) (auto simp: walk_to_def answered_send_json)
next
  case (Deliver r w)
  with assms show ?thesis by (auto intro: answered_deliver)
next
  case (Resume q')
  with assms show ?thesis by (auto intro: answered_resume_other)
qed (use assms in \<open>auto simp: chat_def send_whisper_def send_emote_def set_indicator_def
    send_channel_def teleport_def get_room_users_eq [where r = None] Let_def
    intro: answered_send_json answered_do_req_resp split: option.splits\<close>)

lemma answered_run:
  "answered rid q v hr \<Longrightarrow> Resume q \<notin> set es \<Longrightarrow> run es hr = Some hr' \<Longrightarrow> answered rid q v hr'"
  by (induction es arbitrary: hr) (auto split: option.splits dest: answered_step)

lemma answered_get:
  "answered rid q v hr \<Longrightarrow> \<exists>hr'. await_get q hr = Some (v, hr') \<and> req_id_registry hr' rid = None"
  by (simp add: answered_def await_get_def)

text \<open>
  Taking the response out of the queue does not touch the registry: in the source, the only
  statement of \<^verbatim>\<open>do_req_resp\<close> that writes the registry is the one that adds the entry.
\<close>

lemma await_get_registry:
  "await_get q hr = Some (v, hr') \<Longrightarrow> req_id_registry hr' = req_id_registry hr"
  by (auto simp: await_get_def split: if_splits list.splits)

text \<open>
  C1. A correlated request made through \<^verbatim>\<open>do_req_resp\<close> (\<^verbatim>\<open>teleport\<close> is
  \<^verbatim>\<open>do_req_resp\<close> on a \<^verbatim>\<open>TeleportRequest\<close>) in any state the process can reach: while
  nothing is delivered to its id, its entry stays in the registry and the caller stays
  suspended; once the response is delivered to its queue, the entry is gone from the
  registry, and when the caller then takes the response from the queue, whatever else has
  run in between, it gets exactly that response and the registry still has no entry for
  the id. The entry is removed by the delivery step; \<^verbatim>\<open>do_req_resp\<close> itself only adds
  it.
\<close>

theorem delivered_response_leaves_registry:
  assumes "run es Highrise_init = Some hr"
    and "list_all (leaves (str (req_id hr)) (length (queues hr))) es1"
    and "run es1 (snd (do_req_resp hr req)) = Some hr2"
  shows "fst (do_req_resp hr req) = Await_get (length (queues hr))
       \<and> req_id_registry hr2 (str (req_id hr)) = Some (length (queues hr))
       \<and> await_get (length (queues hr)) hr2 = None
       \<and> (\<exists>hr3. deliver (Some (str (req_id hr))) v hr2 = Some hr3
             \<and> req_id_registry hr3 (str (req_id hr)) = None
             \<and> (\<forall>es2 hr4. Resume (length (queues hr)) \<notin> set es2 \<and> run es2 hr3 = Some hr4 \<longrightarrow>
                   (\<exists>hr5. await_get (length (queues hr)) hr4 = Some (v, hr5)
                       \<and> req_id_registry hr5 (str (req_id hr)) = None)))"
proof -
  let ?rid = "str (req_id hr)" and ?q = "length (queues hr)"
  from assms(1) have "inv hr" by (rule inv_run [OF inv_init])
  then have "pending ?rid ?q (snd (do_req_resp hr req))" by (rule pending_start)
  from pending_run [OF this assms(2,3)] have p: "pending ?rid ?q hr2" .
  from pending_deliver [OF p, of v] obtain hr3
    where d: "deliver (Some ?rid) v hr2 = Some hr3" and a: "answered ?rid ?q v hr3" by blast
  have "\<exists>hr5. await_get ?q hr4 = Some (v, hr5) \<and> req_id_registry hr5 ?rid = None"
    if "Resume ?q \<notin> set es2" "run es2 hr3 = Some hr4" for es2 hr4
    using answered_get [OF answered_run [OF a that]] .
  moreover from a have "req_id_registry hr3 ?rid = None" by (simp add: answered_def)
  moreover from p have "req_id_registry hr2 ?rid = Some ?q" by (simp add: pending_def)
  moreover from p inv_regD [of hr2 ?rid ?q] have "await_get ?q hr2 = None"
    by (simp add: pending_def await_get_def)
  moreover have "fst (do_req_resp hr req) = Await_get ?q" by (simp add: do_req_resp_eq)
  ultimately show ?thesis using d by blast
qed


theorem delivered_response_leaves_registry_witness:
  "\<exists>hr2 hr3 hr4 hr5.
     run [Chat ''hi'', Get_room_users, Deliver (Some ''7'') ''stale'']
       (snd (teleport (Highrise_init :: (unit, unit, string) Highrise) ''u1'' ())) = Some hr2
     \<and> req_id_registry hr2 ''0'' = Some 0
     \<and> deliver (Some ''0'') ''TeleportResponse'' hr2 = Some hr3
     \<and> run [Deliver (Some ''0'') ''again'', Send_emote ''wave'' None] hr3 = Some hr4
     \<and> await_get 0 hr4 = Some (''TeleportResponse'', hr5)
     \<and> req_id_registry hr5 ''0'' = None"
proof -
  let ?hr = "Highrise_init :: (unit, unit, string) Highrise"
  let ?es1 = "[Chat ''hi'', Get_room_users, Deliver (Some ''7'') ''stale''] :: (unit, unit, string) event list"
  let ?es2 = "[Deliver (Some ''0'') ''again'', Send_emote ''wave'' None] :: (unit, unit, string) event list"
  have r0: "run [] ?hr = Some ?hr" by simp
  have l: "list_all (leaves (str (req_id ?hr)) (length (queues ?hr))) ?es1"
    by (simp add: Highrise_init_def str_0)
  obtain hr2 where r1: "run ?es1 (snd (do_req_resp ?hr (TeleportRequest ''u1'' () None))) = Some hr2"
    by (simp add: run_defs)
  from delivered_response_leaves_registry [OF r0 l r1, of "''TeleportResponse''"]
  obtain hr3 where a: "req_id_registry hr2 ''0'' = Some 0"
    and d: "deliver (Some ''0'') ''TeleportResponse'' hr2 = Some hr3"
    and g: "\<And>es2 hr4. Resume 0 \<notin> set es2 \<Longrightarrow> run es2 hr3 = Some hr4 \<Longrightarrow>
              \<exists>hr5. await_get 0 hr4 = Some (''TeleportResponse'', hr5) \<and> req_id_registry hr5 ''0'' = None"
    by (auto simp: Highrise_init_def str_0)
  from d obtain hr4 where r2: "run ?es2 hr3 = Some hr4"
    by (auto simp: run_defs split: option.splits if_splits)
  from g [OF _ r2] obtain hr5 where "await_get 0 hr4 = Some (''TeleportResponse'', hr5)"
    "req_id_registry hr5 ''0'' = None" by auto
  with r1 a d r2 show ?thesis by (auto simp: teleport_def)
qed


section \<open>The steps of a correlated call\<close>



text \<open>
  C6. \<^verbatim>\<open>get_room_users\<close> does what \<^verbatim>\<open>do_req_resp\<close> does on a
  \<^verbatim>\<open>GetRoomUsersRequest\<close>: the id is the next number of the same counter, a new queue is
  registered under it in the same registry, the request sent carries that id, and the
  caller waits on that queue.
\<close>

theorem get_room_users_as_do_req_resp:
  "get_room_users hr = do_req_resp hr (GetRoomUsersRequest r)
   \<and> get_room_users hr =
       (Await_get (length (queues hr)),
        hr\<lparr>ws := ws hr @ [Send_str_dumps (GetRoomUsersRequest (Some (str (req_id hr))))],
           req_id := Suc (req_id hr),
           req_id_registry := (req_id_registry hr)(str (req_id hr) \<mapsto> length (queues hr)),
           queues := queues hr @ [[]]\<rparr>)"
  by (simp add: get_room_users_def do_req_resp_def next_req_id_def new_Queue_def
      registry_set_def ws_send_def str_of_str_def Let_def)

section \<open>Which calls go through the converter\<close>

text \<open>
  C5, as stated, fails: \<^verbatim>\<open>chat("hi")\<close> passes a dict it builds itself to
  \<^verbatim>\<open>ws.send_json\<close>; the converter is not called, and the \<^verbatim>\<open>_type\<close> of the dict,
  "ChatRequest", is not the name of a member of \<^verbatim>\<open>Outgoing\<close>.
\<close>

theorem chat_frame_not_from_converter:
  "\<not> via_converter (frame_of (chat (Highrise_init :: (unit, unit, unit) Highrise) ''hi''))
   \<and> frame_of (chat (Highrise_init :: (unit, unit, unit) Highrise) ''hi'') =
       Send_json [(''_type'', Str ''ChatRequest''), (''message'', Str ''hi'')]
   \<and> ''ChatRequest'' \<notin> set Outgoing"
  by (simp add: frame_of_def chat_def ws_send_def Highrise_init_def Outgoing_def)

text \<open>
  C5, amended. The correlated calls (\<^verbatim>\<open>set_indicator\<close>, \<^verbatim>\<open>send_channel\<close>,
  \<^verbatim>\<open>teleport\<close>, \<^verbatim>\<open>get_room_users\<close>) send the converter's encoding of a value whose class
  is a member of \<^verbatim>\<open>Outgoing\<close>. The one-way calls (\<^verbatim>\<open>chat\<close>, \<^verbatim>\<open>send_whisper\<close>,
  \<^verbatim>\<open>send_emote\<close>, \<^verbatim>\<open>walk_to\<close>) send a dict literal through \<^verbatim>\<open>ws.send_json\<close> without
  the converter, tagged "ChatRequest", "EmoteRequest" or "FloorHitRequest", none of which
  names a member of \<^verbatim>\<open>Outgoing\<close>.
\<close>

theorem facade_frames:
  "(\<exists>req. frame_of (set_indicator hr i) = Send_str_dumps req
        \<and> class_name req = ''IndicatorRequest'' \<and> class_name req \<in> set Outgoing)
   \<and> (\<exists>req. frame_of (send_channel hr m ts) = Send_str_dumps req
        \<and> class_name req = ''ChannelRequest'' \<and> class_name req \<in> set Outgoing)
   \<and> (\<exists>req. frame_of (teleport hr u p) = Send_str_dumps req
        \<and> class_name req = ''TeleportRequest'' \<and> class_name req \<in> set Outgoing)
   \<and> (\<exists>req. frame_of (get_room_users hr) = Send_str_dumps req
        \<and> class_name req = ''GetRoomUsersRequest'' \<and> class_name req \<in> set Outgoing)
   \<and> (\<exists>d. frame_of (chat hr m) = Send_json d \<and> map_of d ''_type'' = Some (Str ''ChatRequest''))
   \<and> (\<exists>d. frame_of (send_whisper hr u m) = Send_json d
        \<and> map_of d ''_type'' = Some (Str ''ChatRequest''))
   \<and> (\<exists>d. frame_of (send_emote hr e t) = Send_json d
        \<and> map_of d ''_type'' = Some (Str ''EmoteRequest''))
   \<and> (\<exists>d. frame_of (walk_to hr xyz f) = Send_json d
        \<and> map_of d ''_type'' = Some (Str ''FloorHitRequest''))
   \<and> \<not> via_converter (frame_of (chat hr m))
   \<and> \<not> via_converter (frame_of (send_whisper hr u m))
   \<and> \<not> via_converter (frame_of (send_emote hr e t))
   \<and> \<not> via_converter (frame_of (walk_to hr xyz f))
   \<and> ''ChatRequest'' \<notin> set Outgoing \<and> ''EmoteRequest'' \<notin> set Outgoing
   \<and> ''FloorHitRequest'' \<notin> set Outgoing"
  by (cases xyz; cases t)
    (simp_all add: frame_of_def set_indicator_def send_channel_def teleport_def
      get_room_users_eq [where r = None] do_req_resp_eq chat_def send_whisper_def
      send_emote_def walk_to_def ws_send_def Outgoing_def class_name_set_rid Let_def)

section \<open>The default handlers do nothing\<close>

text \<open>
  C9, as stated, fails: \<^verbatim>\<open>BaseBot\<close> defines no \<^verbatim>\<open>on_user_left\<close>.
\<close>

theorem BaseBot_without_on_user_left:
  "''on_user_left'' \<notin> set BaseBot"
  by (simp add: BaseBot_def)

text \<open>
  C9, amended. Each handler \<^verbatim>\<open>BaseBot\<close> defines (\<^verbatim>\<open>on_start\<close>, \<^verbatim>\<open>on_chat\<close>,
  \<^verbatim>\<open>on_whisper\<close>, \<^verbatim>\<open>on_emote\<close>, \<^verbatim>\<open>on_user_join\<close>, \<^verbatim>\<open>on_tip\<close>, \<^verbatim>\<open>on_channel\<close>)
  changes nothing and returns \<^verbatim>\<open>None\<close>, whatever its arguments; these seven are all
  the handlers it defines, and \<^verbatim>\<open>on_user_left\<close> is not one of them.
\<close>

theorem BaseBot_handlers_do_nothing:
  "on_start w session_metadata = (Return (), w)
   \<and> on_chat w user msg = (Return (), w)
   \<and> on_whisper w user msg = (Return (), w)
   \<and> on_emote w user emote_id receiver = (Return (), w)
   \<and> on_user_join w user = (Return (), w)
   \<and> on_tip w sender receiver' tip = (Return (), w)
   \<and> on_channel w msg tgs = (Return (), w)
   \<and> set BaseBot = {''on_start'', ''on_chat'', ''on_whisper'', ''on_emote'', ''on_user_join'',
                     ''on_tip'', ''on_channel''}
   \<and> length BaseBot = 7
   \<and> ''on_user_left'' \<notin> set BaseBot"
  by (simp add: on_start_def on_chat_def on_whisper_def on_emote_def on_user_join_def
      on_tip_def on_channel_def BaseBot_def)

end
